theory Spec2Isabelle
  imports Main
begin

section \<open>Life chronology generator: era, zodiac and row enumeration\<close>

text \<open>
  The development embeds the calendar logic of \<^verbatim>\<open>generate_years_v14_streamlit.py\<close>
  (the functions \<^verbatim>\<open>get_japanese_era\<close>, \<^verbatim>\<open>get_chinese_zodiac\<close>,
  \<^verbatim>\<open>get_western_zodiac\<close> and \<^verbatim>\<open>generate_data\<close>); the same functions and the
  same loop appear verbatim in \<^verbatim>\<open>generate_years_v9.py\<close>.

  Python integers are unbounded and are modelled by \<open>int\<close>; Python's \<^verbatim>\<open>//\<close> and
  \<^verbatim>\<open>%\<close> round towards minus infinity, as \<open>div\<close> and \<open>mod\<close> on \<open>int\<close> do.
  A Python string is a \<open>string\<close>, one \<open>char\<close> for each code point; the characters of
  HOL are the code points 0 to 255. Every exception the code can raise is a value of the
  type \<open>error\<close>, returned as \<open>Inl\<close>.
\<close>

subsection \<open>Python primitives used by the code\<close>

datatype error = KeyError | ValueError | IndexError

text \<open>\<^verbatim>\<open>d[k]\<close> on a dictionary literal, given as its list of items.\<close>

definition dict_getitem :: "('k \<times> 'v) list \<Rightarrow> 'k \<Rightarrow> error + 'v" where
  "dict_getitem d k = (case map_of d k of None \<Rightarrow> Inl KeyError | Some v \<Rightarrow> Inr v)"

text \<open>\<^verbatim>\<open>d.get(k, default)\<close>.\<close>

definition dict_get :: "('k \<times> 'v) list \<Rightarrow> 'k \<Rightarrow> 'v \<Rightarrow> 'v" where
  "dict_get d k dflt = (case map_of d k of None \<Rightarrow> dflt | Some v \<Rightarrow> v)"

text \<open>\<^verbatim>\<open>xs[i]\<close>: a negative index counts from the end, an index out of range raises.\<close>

definition list_getitem :: "'a list \<Rightarrow> int \<Rightarrow> error + 'a" where
  "list_getitem xs i =
     (if 0 \<le> i then
        (if i < int (length xs) then Inr (xs ! nat i) else Inl IndexError)
      else
        (if - int (length xs) \<le> i then Inr (xs ! nat (int (length xs) + i))
         else Inl IndexError))"

text \<open>\<^verbatim>\<open>xs.index(x)\<close>: the position of the first occurrence, \<^verbatim>\<open>ValueError\<close> if there is none.\<close>

primrec list_index :: "'a list \<Rightarrow> 'a \<Rightarrow> error + int" where
  "list_index [] x = Inl ValueError"
| "list_index (y # ys) x =
     (if y = x then Inr 0
      else (case list_index ys x of Inl e \<Rightarrow> Inl e | Inr i \<Rightarrow> Inr (i + 1)))"

text \<open>The slices \<^verbatim>\<open>xs[i:]\<close> and \<^verbatim>\<open>xs[:i]\<close>; a negative bound counts from the end.\<close>

definition slice_from :: "'a list \<Rightarrow> int \<Rightarrow> 'a list" where
  "slice_from xs i =
     (let n = int (length xs); j = (if i < 0 then max 0 (n + i) else i)
      in drop (nat j) xs)"

definition slice_to :: "'a list \<Rightarrow> int \<Rightarrow> 'a list" where
  "slice_to xs i =
     (let n = int (length xs); j = (if i < 0 then max 0 (n + i) else i)
      in take (nat j) xs)"

text \<open>\<^verbatim>\<open>str(n)\<close> for an integer, as an f-string formats it: decimal, with a minus sign.\<close>

fun str_nat :: "nat \<Rightarrow> string" where
  "str_nat n =
     (if n < 10 then [''0123456789'' ! n]
      else str_nat (n div 10) @ [''0123456789'' ! (n mod 10)])"

declare str_nat.simps [simp del]

definition str_int :: "int \<Rightarrow> string" where
  "str_int i = (if i < 0 then CHR ''-'' # str_nat (nat (- i)) else str_nat (nat i))"

subsection \<open>The filename sanitizer\<close>

text \<open>
  \<^verbatim>\<open>re.sub(r'[^a-zA-Z0-9_-]', '_', name).lower()\<close>. The pattern is one negated
  character class, so a match is a single character that is not listed in the class;
  \<^verbatim>\<open>re.sub\<close> goes through the string from the left and puts the replacement in
  the place of each match.
\<close>

definition class_chars :: "char list" where
  "class_chars =
     ''abcdefghijklmnopqrstuvwxyz'' @ ''ABCDEFGHIJKLMNOPQRSTUVWXYZ'' @ ''0123456789'' @ ''_-''"

definition negated_class :: "char \<Rightarrow> bool" where
  "negated_class c \<longleftrightarrow> c \<notin> set class_chars"

fun re_sub :: "(char \<Rightarrow> bool) \<Rightarrow> string \<Rightarrow> string \<Rightarrow> string" where
  "re_sub p repl [] = []"
| "re_sub p repl (c # cs) = (if p c then repl @ re_sub p repl cs else c # re_sub p repl cs)"

text \<open>
  \<^verbatim>\<open>str.lower\<close>. It is applied to the result of the substitution, where only ASCII
  is left; on ASCII it maps the 26 capital letters and leaves the rest.
\<close>

definition lower_char :: "char \<Rightarrow> char" where
  "lower_char c =
     dict_get (zip ''ABCDEFGHIJKLMNOPQRSTUVWXYZ'' ''abcdefghijklmnopqrstuvwxyz'') c c"

definition lower :: "string \<Rightarrow> string" where
  "lower s = map lower_char s"

definition sanitize_name :: "string \<Rightarrow> string" where
  "sanitize_name name = lower (re_sub negated_class ''_'' name)"

text \<open>
  The sanitizer in the words of the specification: every character outside
  \<^verbatim>\<open>[A-Za-z0-9_-]\<close> is replaced by an underscore, and the result is lower-cased.
  This description is written on code points and shares nothing with the tables of the
  model above: the class is the three ranges 65 to 90, 97 to 122 and 48 to 57 together
  with 95 (the underscore) and 45 (the hyphen), and the lower case of a capital letter
  is the character 32 code points after it.
\<close>

definition code_point :: "char \<Rightarrow> nat" where
  "code_point c = of_char c"

definition in_class :: "char \<Rightarrow> bool" where
  "in_class c \<longleftrightarrow>
     (65 \<le> code_point c \<and> code_point c \<le> 90) \<or>
     (97 \<le> code_point c \<and> code_point c \<le> 122) \<or>
     (48 \<le> code_point c \<and> code_point c \<le> 57) \<or>
     code_point c = 95 \<or> code_point c = 45"

definition lower_case :: "char \<Rightarrow> char" where
  "lower_case c =
     (if 65 \<le> code_point c \<and> code_point c \<le> 90 then char_of (code_point c + 32) else c)"

definition sanitize_spec :: "string \<Rightarrow> string" where
  "sanitize_spec s = map (\<lambda>c. lower_case (if in_class c then c else CHR ''_'')) s"

text \<open>The characters a sanitized name can contain: small letters, digits, underscore, hyphen.\<close>

definition safe_chars :: "char list" where
  "safe_chars = ''abcdefghijklmnopqrstuvwxyz0123456789_-''"

subsection \<open>Era, zodiac and season lookups\<close>

definition months :: "string list" where
  "months = [''January'', ''February'', ''March'', ''April'', ''May'', ''June'',
             ''July'', ''August'', ''September'', ''October'', ''November'', ''December'']"

definition month_num :: "(string \<times> int) list" where
  "month_num =
     [(''January'', 1), (''February'', 2), (''March'', 3), (''April'', 4),
      (''May'', 5), (''June'', 6), (''July'', 7), (''August'', 8),
      (''September'', 9), (''October'', 10), (''November'', 11), (''December'', 12)]"

definition get_japanese_era :: "int \<Rightarrow> string \<Rightarrow> error + string" where
  "get_japanese_era year month =
     (case dict_getitem month_num month of
        Inl e \<Rightarrow> Inl e
      | Inr m \<Rightarrow>
          Inr (if year < 1868 then ''Pre-Meiji''
               else if year = 1868 then
                 (if m < 9 then ''Pre-Meiji'' else ''Meiji 1'')
               else if year \<le> 1911 then ''Meiji '' @ str_int (year - 1867)
               else if year = 1912 then
                 (if m \<le> 7 then ''Meiji '' @ str_int (year - 1867) else ''Taisho 1'')
               else if year \<le> 1925 then ''Taisho '' @ str_int (year - 1911)
               else if year = 1926 then
                 (if m \<le> 12 then ''Taisho '' @ str_int (year - 1911) else ''Showa 1'')
               else if year \<le> 1988 then ''Showa '' @ str_int (year - 1925)
               else if year = 1989 then
                 (if m \<le> 1 then ''Showa '' @ str_int (year - 1925) else ''Heisei 1'')
               else if year \<le> 2018 then ''Heisei '' @ str_int (year - 1988)
               else if year = 2019 then
                 (if m \<le> 4 then ''Heisei '' @ str_int (year - 1988) else ''Reiwa 1'')
               else ''Reiwa '' @ str_int (year - 2018)))"

definition zodiac_animals :: "string list" where
  "zodiac_animals = [''Rat'', ''Ox'', ''Tiger'', ''Rabbit'', ''Dragon'', ''Snake'',
                     ''Horse'', ''Goat'', ''Monkey'', ''Rooster'', ''Dog'', ''Wild Boar'']"

text \<open>The month is a parameter of the source function that its body never reads.\<close>

definition get_chinese_zodiac :: "int \<Rightarrow> string \<Rightarrow> error + string" where
  "get_chinese_zodiac year month =
     (let zodiac_index = (year - 1900) mod 12 in
      case list_getitem zodiac_animals zodiac_index of
        Inl e \<Rightarrow> Inl e
      | Inr zodiac_animal \<Rightarrow>
          Inr (zodiac_animal @ '' Year '' @ str_int (zodiac_index + 1)))"

definition western_zodiac :: "(string \<times> string) list" where
  "western_zodiac =
     [(''January'', ''Capricorn/Aquarius''), (''February'', ''Aquarius/Pisces''),
      (''March'', ''Pisces/Aries''), (''April'', ''Aries/Taurus''),
      (''May'', ''Taurus/Gemini''), (''June'', ''Gemini/Cancer''),
      (''July'', ''Cancer/Leo''), (''August'', ''Leo/Virgo''),
      (''September'', ''Virgo/Libra''), (''October'', ''Libra/Scorpio''),
      (''November'', ''Scorpio/Sagittarius''), (''December'', ''Sagittarius/Capricorn'')]"

definition get_western_zodiac :: "string \<Rightarrow> string" where
  "get_western_zodiac month = dict_get western_zodiac month ''Unknown''"

definition season_map :: "(string \<times> string) list" where
  "season_map =
     [(''January'', ''winter''), (''February'', ''winter''), (''March'', ''spring''),
      (''April'', ''spring''), (''May'', ''spring''), (''June'', ''summer''),
      (''July'', ''summer''), (''August'', ''summer''), (''September'', ''autumn''),
      (''October'', ''autumn''), (''November'', ''autumn''), (''December'', ''winter'')]"

subsection \<open>The row generator\<close>

text \<open>
  A row of \<^verbatim>\<open>all_rows\<close> is a Python list of cells: the header has seven strings, a
  data row two integers and five strings.
\<close>

datatype cell = IntCell int | StrCell string

definition header :: "cell list" where
  "header = map StrCell [''Year'', ''Age'', ''Season'', ''Month'', ''Japanese Era'',
                         ''Chinese Zodiac'', ''Western Zodiac'']"

text \<open>
  The body of the \<^verbatim>\<open>while\<close> loop up to the construction of \<^verbatim>\<open>row\<close>; it returns the
  row together with \<^verbatim>\<open>month\<close>, which the loop tests afterwards.
\<close>

definition make_row :: "string list \<Rightarrow> int \<Rightarrow> int \<Rightarrow> error + (cell list \<times> string)" where
  "make_row rotated_months current_year month_count =
     (let years_passed = month_count div 12;
          age = years_passed;
          month_index = month_count mod 12
      in case list_getitem rotated_months month_index of
           Inl e \<Rightarrow> Inl e
         | Inr month \<Rightarrow>
            (case dict_getitem season_map month of
               Inl e \<Rightarrow> Inl e
             | Inr season \<Rightarrow>
                (case get_japanese_era current_year month of
                   Inl e \<Rightarrow> Inl e
                 | Inr japanese_era \<Rightarrow>
                    (case get_chinese_zodiac current_year month of
                       Inl e \<Rightarrow> Inl e
                     | Inr chinese_zodiac \<Rightarrow>
                         Inr ([IntCell current_year, IntCell age, StrCell season,
                               StrCell month, StrCell japanese_era,
                               StrCell chinese_zodiac,
                               StrCell (get_western_zodiac month)], month)))))"

text \<open>
  The loop \<^verbatim>\<open>while month_count < total_months\<close> with its three variables
  \<^verbatim>\<open>current_year\<close>, \<^verbatim>\<open>month_count\<close> and \<^verbatim>\<open>all_rows\<close>.
\<close>

function generate_loop ::
  "string list \<Rightarrow> int \<Rightarrow> int \<Rightarrow> int \<Rightarrow> cell list list \<Rightarrow> error + cell list list" where
  "generate_loop rotated_months total_months current_year month_count all_rows =
     (if month_count < total_months then
        (case make_row rotated_months current_year month_count of
           Inl e \<Rightarrow> Inl e
         | Inr (row, month) \<Rightarrow>
             generate_loop rotated_months total_months
               (if month = ''December'' then current_year + 1 else current_year)
               (month_count + 1)
               (all_rows @ [row]))
      else Inr all_rows)"
  by pat_completeness auto
termination
  by (relation "measure (\<lambda>(r, t, y, c, a). nat (t - c))") auto

declare generate_loop.simps [simp del]

definition generate_data :: "string \<Rightarrow> int \<Rightarrow> string \<Rightarrow> error + (string \<times> cell list list)" where
  "generate_data name birth_year birth_month =
     (let sanitized_name = sanitize_name name;
          end_year = birth_year + 100
      in case list_index months birth_month of
           Inl e \<Rightarrow> Inl e
         | Inr birth_month_index \<Rightarrow>
            (let rotated_months =
                   slice_from months birth_month_index @ slice_to months birth_month_index;
                 total_months = (end_year - birth_year + 1) * 12
             in case generate_loop rotated_months total_months birth_year 0 [header] of
                  Inl e \<Rightarrow> Inl e
                | Inr all_rows \<Rightarrow> Inr (sanitized_name, all_rows)))"

text \<open>The data rows, \<^verbatim>\<open>all_rows[1:]\<close> in \<^verbatim>\<open>generate_excel\<close>: everything after the header.\<close>

definition data_rows :: "cell list list \<Rightarrow> cell list list" where
  "data_rows all_rows = drop 1 all_rows"

subsection \<open>Closed form of the generated rows\<close>

text \<open>
  Two auxiliary notions for the proofs. \<open>rotated k\<close> is the value of
  \<^verbatim>\<open>rotated_months\<close> when \<^verbatim>\<open>birth_month_index\<close> is \<open>k\<close>. \<open>row_at Y k i\<close> is the row
  that the loop appends at \<^verbatim>\<open>month_count = i\<close> when it was started in year \<open>Y\<close> with
  the months rotated by \<open>k\<close>: the month is entry \<open>(i + k) mod 12\<close> of the calendar, and
  the year has been advanced \<open>(i + k) div 12\<close> times.
\<close>

definition rotated :: "int \<Rightarrow> string list" where
  "rotated k = slice_from months k @ slice_to months k"

definition row_at :: "int \<Rightarrow> int \<Rightarrow> int \<Rightarrow> cell list" where
  "row_at Y k i =
     (let m = months ! nat ((i + k) mod 12); y = Y + (i + k) div 12
      in [IntCell y, IntCell (i div 12), StrCell (projr (dict_getitem season_map m)),
          StrCell m, StrCell (projr (get_japanese_era y m)),
          StrCell (projr (get_chinese_zodiac y m)), StrCell (get_western_zodiac m)])"

section \<open>Properties\<close>

subsection \<open>Formatting of integers\<close>

lemma str_nat_small: "n < 10 \<Longrightarrow> str_nat n = [''0123456789'' ! n]"
  by (subst str_nat.simps) simp

lemma str_nat_big:
  "\<not> n < 10 \<Longrightarrow> str_nat n = str_nat (n div 10) @ [''0123456789'' ! (n mod 10)]"
  by (subst str_nat.simps) simp

lemmas str_eval = str_int_def str_nat_small str_nat_big

lemma str_nat_nonempty: "str_nat n \<noteq> []"
  by (subst str_nat.simps) simp

lemma digit_one:
  assumes "n < 10"
  shows "''0123456789'' ! n = CHR ''1'' \<longleftrightarrow> n = 1"
  using assms by (simp add: nth_Cons')

lemma str_nat_one: "str_nat n = ''1'' \<longleftrightarrow> n = 1"
proof (cases "n < 10")
  case True
  then show ?thesis by (simp add: str_nat_small digit_one)
next
  case False
  obtain c cs where "str_nat (n div 10) = c # cs"
    using str_nat_nonempty [of "n div 10"] by (cases "str_nat (n div 10)") simp_all
  then have "length (str_nat n) \<ge> 2" using False by (simp add: str_nat_big)
  then have "str_nat n \<noteq> ''1''" by auto
  with False show ?thesis by simp
qed

lemma str_int_one: "0 \<le> i \<Longrightarrow> str_int i = ''1'' \<longleftrightarrow> i = 1"
  by (simp add: str_int_def str_nat_one) linarith

subsection \<open>The twelve months\<close>

lemma months_ball:
  "(\<forall>m \<in> set months. P m) \<longleftrightarrow>
     P ''January'' \<and> P ''February'' \<and> P ''March'' \<and> P ''April'' \<and> P ''May'' \<and>
     P ''June'' \<and> P ''July'' \<and> P ''August'' \<and> P ''September'' \<and> P ''October'' \<and>
     P ''November'' \<and> P ''December''"
  by (simp add: months_def)

lemma length_months: "length months = 12"
  by (simp add: months_def)

lemma distinct_months: "distinct months"
  by (simp add: months_def)

lemma months_11: "months ! 11 = ''December''"
  by (simp add: months_def)

lemma december_iff: "n < 12 \<Longrightarrow> months ! n = ''December'' \<longleftrightarrow> n = 11"
  using nth_eq_iff_index_eq [OF distinct_months, of n 11]
  by (simp add: length_months months_11)

lemma december_mod: "months ! nat (j mod 12) = ''December'' \<longleftrightarrow> j mod 12 = 11"
proof -
  have r: "0 \<le> j mod 12" "j mod 12 < 12" by simp_all
  then have "nat (j mod 12) < 12" by linarith
  moreover from r have "nat (j mod 12) = 11 \<longleftrightarrow> j mod 12 = 11" by linarith
  ultimately show ?thesis using december_iff [of "nat (j mod 12)"] by simp
qed

lemma month_at_canon: "months ! nat (j mod 12) \<in> set months"
  by (rule nth_mem) (simp add: length_months)

lemma month_num_only: "dict_getitem month_num m = Inr n \<Longrightarrow> 1 \<le> n \<and> n \<le> 12"
  by (simp add: dict_getitem_def month_num_def split: if_splits)

lemma month_num_all:
  "\<forall>m \<in> set months. \<exists>n. dict_getitem month_num m = Inr n \<and> 1 \<le> n \<and> n \<le> 12"
  unfolding months_ball by (simp add: dict_getitem_def month_num_def)

lemma season_all: "\<forall>m \<in> set months. \<not> isl (dict_getitem season_map m)"
  unfolding months_ball by (simp add: dict_getitem_def season_map_def)

lemma era_canon:
  assumes "m \<in> set months"
  shows "\<not> isl (get_japanese_era y m)"
proof -
  obtain n where "dict_getitem month_num m = Inr n"
    using month_num_all assms by blast
  then show ?thesis by (simp add: get_japanese_era_def)
qed

lemma zodiac_total: "\<not> isl (get_chinese_zodiac y m)"
proof -
  have "0 \<le> (y - 1900) mod 12" "(y - 1900) mod 12 < 12" by simp_all
  then show ?thesis
    by (simp add: get_chinese_zodiac_def list_getitem_def zodiac_animals_def Let_def)
qed

subsection \<open>Position and rotation\<close>

lemma list_index_Inr:
  "x \<in> set xs \<Longrightarrow>
     \<exists>k. list_index xs x = Inr k \<and> 0 \<le> k \<and> k < int (length xs) \<and> xs ! nat k = x"
proof (induction xs)
  case Nil
  then show ?case by simp
next
  case (Cons y ys)
  show ?case
  proof (cases "y = x")
    case True
    then show ?thesis by simp
  next
    case False
    with Cons.prems have "x \<in> set ys" by simp
    then obtain k where k: "list_index ys x = Inr k" "0 \<le> k" "k < int (length ys)"
        "ys ! nat k = x"
      using Cons.IH by blast
    then have "nat (k + 1) = Suc (nat k)" by simp
    with k False show ?thesis by simp
  qed
qed

lemma rotated_rotate: "0 \<le> k \<Longrightarrow> k < 12 \<Longrightarrow> rotated k = rotate (nat k) months"
  by (simp add: rotated_def slice_from_def slice_to_def rotate_drop_take length_months)

lemma getitem_rotate:
  assumes "j < 12"
  shows "list_getitem (rotate n months) (int j) = Inr (months ! ((n + j) mod 12))"
proof -
  have "rotate n months ! j = months ! ((n + j) mod length months)"
    by (rule nth_rotate) (simp add: length_months assms)
  then show ?thesis
    using assms by (simp add: list_getitem_def length_months)
qed

lemma nat_mod_sum:
  assumes "0 \<le> (k::int)" "0 \<le> i"
  shows "nat ((i + k) mod 12) = (nat k + nat (i mod 12)) mod 12"
proof -
  have "(i + k) mod 12 = (k + i mod 12) mod 12"
    by (simp add: mod_add_right_eq add.commute)
  moreover have "nat ((k + i mod 12) mod 12) = nat (k + i mod 12) mod 12"
    using assms by (simp add: nat_mod_distrib)
  moreover have "nat (k + i mod 12) = nat k + nat (i mod 12)"
    using assms by (simp add: nat_add_distrib)
  ultimately show ?thesis by simp
qed

lemma rotated_getitem:
  assumes "0 \<le> k" "k < 12" "0 \<le> i"
  shows "list_getitem (rotated k) (i mod 12) = Inr (months ! nat ((i + k) mod 12))"
proof -
  have "nat (i mod 12) < 12" by simp
  then have "list_getitem (rotate (nat k) months) (int (nat (i mod 12))) =
               Inr (months ! ((nat k + nat (i mod 12)) mod 12))"
    by (rule getitem_rotate)
  moreover have "int (nat (i mod 12)) = i mod 12" by simp
  ultimately show ?thesis
    by (simp only: rotated_rotate [OF assms(1,2)] nat_mod_sum [OF assms(1,3)])
qed

subsection \<open>Year arithmetic\<close>

lemma year_step:
  "(if (j::int) mod 12 = 11 then Y + j div 12 + 1 else Y + j div 12) = Y + (j + 1) div 12"
proof -
  have a: "(j + 1) div 12 = j div 12 + (j mod 12 + 1) div 12"
    using div_add1_eq [of j 1 12] by simp
  show ?thesis
  proof (cases "j mod 12 = 11")
    case True
    then show ?thesis using a by simp
  next
    case False
    have "0 \<le> j mod 12" "j mod 12 < 12" by simp_all
    with False have "0 \<le> j mod 12 + 1" "j mod 12 + 1 < 12" by linarith+
    then have "(j mod 12 + 1) div 12 = 0" by simp
    with a False show ?thesis by simp
  qed
qed

lemma year_bounds:
  assumes "0 \<le> (i::int)" "i \<le> 1211" "0 \<le> k" "k < 12"
  shows "0 \<le> (i + k) div 12" "(i + k) div 12 \<le> 101"
proof -
  show "0 \<le> (i + k) div 12" using assms by (simp add: pos_imp_zdiv_nonneg_iff)
  have "(i + k) div 12 \<le> 1222 div 12"
    using assms by (intro zdiv_mono1) simp_all
  then show "(i + k) div 12 \<le> 101" by simp
qed

lemma year_bounds_january:
  assumes "0 \<le> (i::int)" "i \<le> 1211"
  shows "(i + 0) div 12 \<le> 100"
proof -
  have "i div 12 \<le> 1211 div 12"
    using assms by (intro zdiv_mono1) simp_all
  then show ?thesis by simp
qed

subsection \<open>The loop\<close>

lemma make_row_canon:
  assumes "0 \<le> k" "k < 12" "0 \<le> i"
  shows "make_row (rotated k) (Y + (i + k) div 12) i =
           Inr (row_at Y k i, months ! nat ((i + k) mod 12))"
proof -
  let ?m = "months ! nat ((i + k) mod 12)"
  let ?y = "Y + (i + k) div 12"
  have m: "?m \<in> set months" by (rule month_at_canon)
  obtain s where s: "dict_getitem season_map ?m = Inr s"
    using season_all m by (cases "dict_getitem season_map ?m") auto
  obtain e where e: "get_japanese_era ?y ?m = Inr e"
    using era_canon [OF m, of ?y] by (cases "get_japanese_era ?y ?m") auto
  obtain z where z: "get_chinese_zodiac ?y ?m = Inr z"
    using zodiac_total [of ?y ?m] by (cases "get_chinese_zodiac ?y ?m") auto
  show ?thesis
    using s e z by (simp add: make_row_def row_at_def Let_def rotated_getitem [OF assms])
qed

lemma generate_loop_closed:
  assumes "0 \<le> k" "k < 12"
  shows "0 \<le> i \<Longrightarrow> n = nat (tm - i) \<Longrightarrow>
         generate_loop (rotated k) tm (Y + (i + k) div 12) i acc =
           Inr (acc @ map (row_at Y k) [i..tm - 1])"
proof (induction n arbitrary: i acc)
  case 0
  then have "\<not> i < tm" by simp
  then show ?case by (subst generate_loop.simps) simp
next
  case (Suc n)
  then have lt: "i < tm" by simp
  have step: "(if months ! nat ((i + k) mod 12) = ''December''
               then Y + (i + k) div 12 + 1 else Y + (i + k) div 12) = Y + (i + 1 + k) div 12"
    unfolding december_mod using year_step [of "i + k" Y]
    by (simp add: add.commute add.left_commute)
  have IH: "generate_loop (rotated k) tm (Y + (i + 1 + k) div 12) (i + 1)
              (acc @ [row_at Y k i]) =
              Inr ((acc @ [row_at Y k i]) @ map (row_at Y k) [i + 1..tm - 1])"
    using Suc.prems by (intro Suc.IH) simp_all
  have up: "[i..tm - 1] = i # [i + 1..tm - 1]"
    using lt by (simp add: upto_rec1)
  show ?case
    by (subst generate_loop.simps)
       (simp only: lt if_True make_row_canon [OF assms Suc.prems(1)] sum.case prod.case step
          IH up list.map append_assoc append_Cons append_Nil)
qed

lemma generate_data_closed:
  assumes "m \<in> set months"
  shows "\<exists>k. 0 \<le> k \<and> k < 12 \<and> months ! nat k = m \<and> list_index months m = Inr k \<and>
           generate_data name Y m =
             Inr (sanitize_name name, header # map (row_at Y k) [0..1211])"
proof -
  obtain k where k: "list_index months m = Inr k" "0 \<le> k" "k < 12" "months ! nat k = m"
    using list_index_Inr [OF assms] by (auto simp add: length_months)
  have "generate_loop (rotated k) 1212 (Y + (0 + k) div 12) 0 [header] =
          Inr ([header] @ map (row_at Y k) [0..1212 - 1])"
    using k by (intro generate_loop_closed) simp_all
  moreover have "(0 + k) div 12 = 0" using k by simp
  ultimately have "generate_loop (rotated k) 1212 Y 0 [header] =
          Inr (header # map (row_at Y k) [0..1211])" by simp
  then have "generate_data name Y m =
             Inr (sanitize_name name, header # map (row_at Y k) [0..1211])"
    by (simp add: generate_data_def k rotated_def [symmetric])
  with k show ?thesis by blast
qed

lemma generate_data_rows:
  assumes "m \<in> set months"
  obtains k all_rows where
    "0 \<le> k" "k < 12" "months ! nat k = m" "list_index months m = Inr k"
    "generate_data name Y m = Inr (sanitize_name name, all_rows)"
    "hd all_rows = header" "length (data_rows all_rows) = 1212"
    "\<And>i. i < 1212 \<Longrightarrow> data_rows all_rows ! i = row_at Y k (int i)"
proof -
  obtain k where k: "0 \<le> k" "k < 12" "months ! nat k = m" "list_index months m = Inr k"
    and g: "generate_data name Y m =
              Inr (sanitize_name name, header # map (row_at Y k) [0..1211])"
    using generate_data_closed [OF assms, of name Y] by blast
  let ?all = "header # map (row_at Y k) [0..1211]"
  have len: "length (data_rows ?all) = 1212" by (simp add: data_rows_def)
  have nth: "data_rows ?all ! i = row_at Y k (int i)" if "i < 1212" for i
    using that by (simp add: data_rows_def)
  show ?thesis
    by (rule that [OF k g _ len nth]) simp_all
qed

lemma row_at_year: "row_at Y k i ! 0 = IntCell (Y + (i + k) div 12)"
  by (simp add: row_at_def Let_def)

lemma row_at_month: "row_at Y k i ! 3 = StrCell (months ! nat ((i + k) mod 12))"
  by (simp add: row_at_def Let_def)

lemma list_index_June: "list_index months ''June'' = Inr 5"
  by (simp add: months_def)

lemmas row_eval =
  row_at_def months_def dict_getitem_def season_map_def get_japanese_era_def month_num_def
  get_chinese_zodiac_def list_getitem_def zodiac_animals_def get_western_zodiac_def
  dict_get_def western_zodiac_def str_eval

subsection \<open>The sanitizer\<close>

lemma re_sub_single: "re_sub p [r] s = map (\<lambda>c. if p c then r else c) s"
  by (induction s) simp_all

text \<open>
  The facts about a single character are decided by going through all 256 characters:
  the class of the code agrees with the class by code points, the table of
  \<open>lower_char\<close> agrees with the shift by 32, and the result is a safe character.
\<close>

lemma char_facts:
  "(negated_class c \<longleftrightarrow> \<not> in_class c) \<and> lower_char c = lower_case c \<and>
   lower_case (if in_class c then c else CHR ''_'') \<in> set safe_chars"
  by (cases c; rename_tac b0 b1 b2 b3 b4 b5 b6 b7; case_tac b0; case_tac b1; case_tac b2;
      case_tac b3; case_tac b4; case_tac b5; case_tac b6; case_tac b7;
      simp add: negated_class_def class_chars_def in_class_def lower_char_def lower_case_def
        code_point_def dict_get_def safe_chars_def char_of_def bit_Suc_0_iff)

lemma negated_class_iff: "negated_class c \<longleftrightarrow> \<not> in_class c"
  using char_facts [of c] by (rule conjunct1)

lemma lower_char_spec: "lower_char c = lower_case c"
  using char_facts [of c] by (rule conjunct2 [THEN conjunct1])

lemma sanitize_eq: "sanitize_name s = sanitize_spec s"
  by (simp add: sanitize_name_def sanitize_spec_def lower_def re_sub_single negated_class_iff
        lower_char_spec cong: if_cong)

section \<open>The claims\<close>

text \<open>
  Claim C1, as the specification states it: every row of \<open>generate(Y, start_month)\<close> has
  \<open>Y \<le> year \<le> Y + 100\<close>. The loop always runs 1212 times and advances the year after
  each December row, so a run that starts after January ends in the year \<open>Y + 101\<close>.
  Started in June 1990, the last data row (index 1211) carries the year 2091.
\<close>

theorem generate_year_upper_bound_counterexample:
  "\<not> isl (generate_data ''Michael'' 1990 ''June'') \<and>
   1211 < length (data_rows (snd (projr (generate_data ''Michael'' 1990 ''June'')))) \<and>
   data_rows (snd (projr (generate_data ''Michael'' 1990 ''June''))) ! 1211 ! 0 = IntCell 2091 \<and>
   \<not> (2091 \<le> (1990::int) + 100)"
proof -
  have june: "''June'' \<in> set months" by (simp add: months_def)
  obtain k all_rows where k: "list_index months ''June'' = Inr k"
    and g: "generate_data ''Michael'' 1990 ''June'' = Inr (sanitize_name ''Michael'', all_rows)"
    and len: "length (data_rows all_rows) = 1212"
    and nth: "\<And>i. i < 1212 \<Longrightarrow> data_rows all_rows ! i = row_at 1990 k (int i)"
    using generate_data_rows [OF june, of "''Michael''" 1990] by blast
  from k have k5: "k = 5" by (simp add: list_index_June)
  have "data_rows all_rows ! 1211 ! 0 = IntCell 2091"
    using nth [of 1211] by (simp add: k5 row_at_year)
  with g len show ?thesis by simp
qed

text \<open>
  Claim C1, amended: for every integer start year \<open>Y\<close> and every canonical start month,
  \<open>generate_data\<close> succeeds and every data row has a year field with
  \<open>Y \<le> year \<le> Y + 101\<close>; when the start month is January the bound \<open>year \<le> Y + 100\<close>
  of the data model holds for every row.
\<close>

theorem generate_year_bounds:
  assumes "m \<in> set months"
  shows "\<exists>all_rows. generate_data name Y m = Inr (sanitize_name name, all_rows) \<and>
           (\<forall>r \<in> set (data_rows all_rows).
              \<exists>y. r ! 0 = IntCell y \<and> Y \<le> y \<and> y \<le> Y + 101 \<and>
                  (m = ''January'' \<longrightarrow> y \<le> Y + 100))"
proof -
  obtain k all_rows where k: "0 \<le> k" "k < 12" "list_index months m = Inr k"
    and g: "generate_data name Y m = Inr (sanitize_name name, all_rows)"
    and len: "length (data_rows all_rows) = 1212"
    and nth: "\<And>i. i < 1212 \<Longrightarrow> data_rows all_rows ! i = row_at Y k (int i)"
    using generate_data_rows [OF assms, of name Y] by blast
  have jan: "k = 0" if "m = ''January''"
    using k(3) that by (simp add: months_def)
  have "\<exists>y. r ! 0 = IntCell y \<and> Y \<le> y \<and> y \<le> Y + 101 \<and> (m = ''January'' \<longrightarrow> y \<le> Y + 100)"
    if rin: "r \<in> set (data_rows all_rows)" for r
  proof -
    obtain i where i: "i < 1212" "r = data_rows all_rows ! i"
      using rin len by (auto simp add: in_set_conv_nth)
    then have r: "r ! 0 = IntCell (Y + (int i + k) div 12)"
      by (simp add: nth row_at_year)
    have b: "0 \<le> (int i + k) div 12" "(int i + k) div 12 \<le> 101"
      using year_bounds [of "int i" k] i(1) k by simp_all
    have "(int i + k) div 12 \<le> 100" if mj: "m = ''January''"
      using year_bounds_january [of "int i"] i(1) jan [OF mj] by simp
    with r b show ?thesis by simp
  qed
  with g show ?thesis by blast
qed

theorem generate_year_bounds_witness:
  "''January'' \<in> set months \<and>
   (\<exists>all_rows r y.
      generate_data ''Michael'' 1990 ''January'' = Inr (sanitize_name ''Michael'', all_rows) \<and>
      r \<in> set (data_rows all_rows) \<and> r ! 0 = IntCell y \<and>
      1990 \<le> y \<and> y \<le> 1990 + 101 \<and> y \<le> 1990 + 100)"
proof -
  have jan: "''January'' \<in> set months" by (simp add: months_def)
  obtain all_rows where
    g: "generate_data ''Michael'' 1990 ''January'' = Inr (sanitize_name ''Michael'', all_rows)"
    and b: "\<forall>r \<in> set (data_rows all_rows).
              \<exists>y. r ! 0 = IntCell y \<and> 1990 \<le> y \<and> y \<le> 1990 + 101 \<and>
                  (''January'' = ''January'' \<longrightarrow> y \<le> 1990 + 100)"
    using generate_year_bounds [OF jan, of "''Michael''" 1990] by blast
  obtain k rows where
    g': "generate_data ''Michael'' 1990 ''January'' = Inr (sanitize_name ''Michael'', rows)"
    and len: "length (data_rows rows) = 1212"
    using generate_data_rows [OF jan, of "''Michael''" 1990] by blast
  from g g' have "rows = all_rows" by simp
  with len have "data_rows all_rows ! 1211 \<in> set (data_rows all_rows)" by simp
  with b obtain y where "data_rows all_rows ! 1211 ! 0 = IntCell y" "1990 \<le> y"
    "y \<le> 1990 + 101" "y \<le> 1990 + 100"
    by blast
  with jan g \<open>data_rows all_rows ! 1211 \<in> set (data_rows all_rows)\<close> show ?thesis by blast
qed

text \<open>
  Claim C2: the era lookup at the eight era boundaries: August and September 1868,
  July and August 1912, January and February 1989, April and May 2019.
\<close>

theorem era_boundary_values:
  "get_japanese_era 1868 ''August'' = Inr ''Pre-Meiji'' \<and>
   get_japanese_era 1868 ''September'' = Inr ''Meiji 1'' \<and>
   get_japanese_era 1912 ''July'' = Inr ''Meiji 45'' \<and>
   get_japanese_era 1912 ''August'' = Inr ''Taisho 1'' \<and>
   get_japanese_era 1989 ''January'' = Inr ''Showa 64'' \<and>
   get_japanese_era 1989 ''February'' = Inr ''Heisei 1'' \<and>
   get_japanese_era 2019 ''April'' = Inr ''Heisei 31'' \<and>
   get_japanese_era 2019 ''May'' = Inr ''Reiwa 1''"
  by (simp add: get_japanese_era_def dict_getitem_def month_num_def str_eval)

text \<open>
  Claim C3: for every integer start year and every canonical start month,
  \<open>generate_data\<close> succeeds and returns the header followed by exactly 1212 data rows.
\<close>

theorem generate_row_count:
  assumes "m \<in> set months"
  shows "\<exists>all_rows. generate_data name Y m = Inr (sanitize_name name, all_rows) \<and>
           hd all_rows = header \<and> length (data_rows all_rows) = 1212"
proof -
  obtain k all_rows where "generate_data name Y m = Inr (sanitize_name name, all_rows)"
    "hd all_rows = header" "length (data_rows all_rows) = 1212"
    using generate_data_rows [OF assms, of name Y] by blast
  then show ?thesis by blast
qed

theorem generate_row_count_witness:
  "''June'' \<in> set months \<and>
   (\<exists>all_rows. generate_data ''Michael'' 1990 ''June'' = Inr (sanitize_name ''Michael'', all_rows) \<and>
      hd all_rows = header \<and> length (data_rows all_rows) = 1212)"
proof -
  have june: "''June'' \<in> set months" by (simp add: months_def)
  from june generate_row_count [OF june, of "''Michael''" 1990] show ?thesis
    by (rule conjI)
qed

text \<open>
  Claim C4: in the rows of \<open>generate_data name Y m\<close> the year field grows by exactly 1
  from a row whose month is December to the next row and is unchanged between any
  other two consecutive rows; the first row has year \<open>Y\<close> and month \<open>m\<close>, whichever
  calendar month \<open>m\<close> is.
\<close>

theorem generate_year_steps:
  assumes "m \<in> set months"
  shows "\<exists>all_rows. generate_data name Y m = Inr (sanitize_name name, all_rows) \<and>
           data_rows all_rows ! 0 ! 0 = IntCell Y \<and>
           data_rows all_rows ! 0 ! 3 = StrCell m \<and>
           (\<forall>i. Suc i < length (data_rows all_rows) \<longrightarrow>
              (\<exists>y. data_rows all_rows ! i ! 0 = IntCell y \<and>
                   data_rows all_rows ! Suc i ! 0 =
                     IntCell (if data_rows all_rows ! i ! 3 = StrCell ''December''
                              then y + 1 else y)))"
proof -
  obtain k all_rows where k: "0 \<le> k" "k < 12" "months ! nat k = m"
    and g: "generate_data name Y m = Inr (sanitize_name name, all_rows)"
    and len: "length (data_rows all_rows) = 1212"
    and nth: "\<And>i. i < 1212 \<Longrightarrow> data_rows all_rows ! i = row_at Y k (int i)"
    using generate_data_rows [OF assms, of name Y] by blast
  have k0: "k div 12 = 0" "k mod 12 = k" using k by simp_all
  have first: "data_rows all_rows ! 0 ! 0 = IntCell Y" "data_rows all_rows ! 0 ! 3 = StrCell m"
    using nth [of 0] k(3) by (simp_all add: row_at_year row_at_month k0)
  have step: "\<exists>y. data_rows all_rows ! i ! 0 = IntCell y \<and>
                  data_rows all_rows ! Suc i ! 0 =
                    IntCell (if data_rows all_rows ! i ! 3 = StrCell ''December''
                             then y + 1 else y)"
    if si: "Suc i < length (data_rows all_rows)" for i
  proof -
    from si len have i: "i < 1212" "Suc i < 1212" by simp_all
    let ?j = "int i + k"
    have "Y + (int (Suc i) + k) div 12 =
            (if ?j mod 12 = 11 then Y + ?j div 12 + 1 else Y + ?j div 12)"
      using year_step [of ?j Y] by (simp add: add.commute add.left_commute)
    then show ?thesis
      by (simp only: nth [OF i(1)] nth [OF i(2)] row_at_year row_at_month cell.inject
            december_mod) simp
  qed
  from g first step show ?thesis by blast
qed

theorem generate_year_steps_witness:
  "''June'' \<in> set months \<and>
   (\<exists>all_rows y.
      generate_data ''Michael'' 1990 ''June'' = Inr (sanitize_name ''Michael'', all_rows) \<and>
      data_rows all_rows ! 0 ! 0 = IntCell 1990 \<and>
      data_rows all_rows ! 0 ! 3 = StrCell ''June'' \<and>
      Suc 6 < length (data_rows all_rows) \<and>
      data_rows all_rows ! 6 ! 3 = StrCell ''December'' \<and>
      data_rows all_rows ! 6 ! 0 = IntCell y \<and>
      data_rows all_rows ! Suc 6 ! 0 = IntCell (y + 1))"
proof -
  have june: "''June'' \<in> set months" by (simp add: months_def)
  obtain all_rows where
    g: "generate_data ''Michael'' 1990 ''June'' = Inr (sanitize_name ''Michael'', all_rows)"
    and first: "data_rows all_rows ! 0 ! 0 = IntCell 1990"
      "data_rows all_rows ! 0 ! 3 = StrCell ''June''"
    and step: "\<forall>i. Suc i < length (data_rows all_rows) \<longrightarrow>
              (\<exists>y. data_rows all_rows ! i ! 0 = IntCell y \<and>
                   data_rows all_rows ! Suc i ! 0 =
                     IntCell (if data_rows all_rows ! i ! 3 = StrCell ''December''
                              then y + 1 else y))"
    using generate_year_steps [OF june, of "''Michael''" 1990] by blast
  obtain k rows where k: "list_index months ''June'' = Inr k"
    and g': "generate_data ''Michael'' 1990 ''June'' = Inr (sanitize_name ''Michael'', rows)"
    and len': "length (data_rows rows) = 1212"
    and nth': "\<And>i. i < 1212 \<Longrightarrow> data_rows rows ! i = row_at 1990 k (int i)"
    using generate_data_rows [OF june, of "''Michael''" 1990] by blast
  from g g' have eq: "rows = all_rows" by simp
  from k have k5: "k = 5" by (simp add: list_index_June)
  have len: "Suc 6 < length (data_rows all_rows)" using len' eq by simp
  have dec: "data_rows all_rows ! 6 ! 3 = StrCell ''December''"
    using nth' [of 6] eq by (simp add: k5 row_at_month months_def)
  from step len obtain y where "data_rows all_rows ! 6 ! 0 = IntCell y"
    "data_rows all_rows ! Suc 6 ! 0 =
       IntCell (if data_rows all_rows ! 6 ! 3 = StrCell ''December'' then y + 1 else y)"
    by blast
  then have "data_rows all_rows ! 6 ! 0 = IntCell y"
    "data_rows all_rows ! Suc 6 ! 0 = IntCell (y + 1)"
    by (simp_all add: dec)
  with june g first len dec show ?thesis by blast
qed

text \<open>
  Claim C5: the run for June 1990. Row 0 is June 1990, row 6 is December 1990 and
  row 7 is January 1991, each with age 0 and with the season, era and zodiac labels the
  specification lists.
\<close>

theorem generate_1990_June:
  "\<exists>all_rows. generate_data name 1990 ''June'' = Inr (sanitize_name name, all_rows) \<and>
     data_rows all_rows ! 0 =
       [IntCell 1990, IntCell 0, StrCell ''summer'', StrCell ''June'', StrCell ''Heisei 2'',
        StrCell ''Horse Year 7'', StrCell ''Gemini/Cancer''] \<and>
     data_rows all_rows ! 6 =
       [IntCell 1990, IntCell 0, StrCell ''winter'', StrCell ''December'', StrCell ''Heisei 2'',
        StrCell ''Horse Year 7'', StrCell ''Sagittarius/Capricorn''] \<and>
     data_rows all_rows ! 7 =
       [IntCell 1991, IntCell 0, StrCell ''winter'', StrCell ''January'', StrCell ''Heisei 3'',
        StrCell ''Goat Year 8'', StrCell ''Capricorn/Aquarius'']"
proof -
  have june: "''June'' \<in> set months" by (simp add: months_def)
  obtain k all_rows where k: "list_index months ''June'' = Inr k"
    and g: "generate_data name 1990 ''June'' = Inr (sanitize_name name, all_rows)"
    and nth: "\<And>i. i < 1212 \<Longrightarrow> data_rows all_rows ! i = row_at 1990 k (int i)"
    using generate_data_rows [OF june, of name 1990] by blast
  from k have k5: "k = 5" by (simp add: list_index_June)
  have r0: "row_at 1990 5 0 =
       [IntCell 1990, IntCell 0, StrCell ''summer'', StrCell ''June'', StrCell ''Heisei 2'',
        StrCell ''Horse Year 7'', StrCell ''Gemini/Cancer'']"
    by (simp add: row_eval)
  have r6: "row_at 1990 5 6 =
       [IntCell 1990, IntCell 0, StrCell ''winter'', StrCell ''December'', StrCell ''Heisei 2'',
        StrCell ''Horse Year 7'', StrCell ''Sagittarius/Capricorn'']"
    by (simp add: row_eval)
  have r7: "row_at 1990 5 7 =
       [IntCell 1991, IntCell 0, StrCell ''winter'', StrCell ''January'', StrCell ''Heisei 3'',
        StrCell ''Goat Year 8'', StrCell ''Capricorn/Aquarius'']"
    by (simp add: row_eval)
  have "data_rows all_rows ! 0 = row_at 1990 5 0" "data_rows all_rows ! 6 = row_at 1990 5 6"
    "data_rows all_rows ! 7 = row_at 1990 5 7"
    using nth [of 0] nth [of 6] nth [of 7] by (simp_all add: k5)
  with g r0 r6 r7 show ?thesis by simp
qed

text \<open>
  Claim C6: for every canonical month the era of 1926 is \<open>Taisho 15\<close>, that is
  \<open>Taisho\<close> followed by \<open>1926 - 1911\<close>; the month number of a canonical month is at most
  12, so the branch that would return \<open>Showa 1\<close> is never taken, and no integer year
  yields \<open>Showa 1\<close>.
\<close>

theorem era_1926_always_taisho:
  assumes "m \<in> set months"
  shows "get_japanese_era 1926 m = Inr (''Taisho '' @ str_int (1926 - 1911)) \<and>
         get_japanese_era 1926 m = Inr ''Taisho 15'' \<and>
         (\<exists>n. dict_getitem month_num m = Inr n \<and> n \<le> 12) \<and>
         (\<forall>y. get_japanese_era y m \<noteq> Inr ''Showa 1'')"
proof -
  obtain n where n: "dict_getitem month_num m = Inr n" "1 \<le> n" "n \<le> 12"
    using month_num_all assms by blast
  have a: "get_japanese_era 1926 m = Inr (''Taisho '' @ str_int (1926 - 1911))"
    using n by (simp add: get_japanese_era_def)
  have b: "''Taisho '' @ str_int (1926 - 1911) = ''Taisho 15''"
    by (simp add: str_eval)
  have c: "get_japanese_era y m \<noteq> Inr ''Showa 1''" for y
    using n by (simp add: get_japanese_era_def str_int_one)
  from a b c n show ?thesis by auto
qed

theorem era_1926_always_taisho_witness:
  "''December'' \<in> set months \<and>
   get_japanese_era 1926 ''December'' = Inr ''Taisho 15'' \<and>
   dict_getitem month_num ''December'' = Inr 12 \<and>
   get_japanese_era 1926 ''December'' \<noteq> Inr ''Showa 1''"
proof -
  have dec: "''December'' \<in> set months" by (simp add: months_def)
  have n: "dict_getitem month_num ''December'' = Inr 12"
    by (simp add: dict_getitem_def month_num_def)
  note t = era_1926_always_taisho [OF dec]
  have a: "get_japanese_era 1926 ''December'' = Inr ''Taisho 15''"
    by (rule t [THEN conjunct2, THEN conjunct1])
  have "\<forall>y. get_japanese_era y ''December'' \<noteq> Inr ''Showa 1''"
    by (rule t [THEN conjunct2, THEN conjunct2, THEN conjunct2])
  then have b: "get_japanese_era 1926 ''December'' \<noteq> Inr ''Showa 1''"
    by (rule spec)
  from dec a n b show ?thesis by (intro conjI)
qed

text \<open>
  Claim C7, as the specification states it: the label of 1911 is
  \<open>Pig/Boar-cycle Year 12\<close>. The code has no such animal name.
\<close>

theorem zodiac_1911_counterexample:
  "get_chinese_zodiac 1911 ''January'' \<noteq> Inr ''Pig/Boar-cycle Year 12''"
  by (simp add: get_chinese_zodiac_def list_getitem_def zodiac_animals_def str_eval)

text \<open>
  Claim C7, amended: the label of 1911 is \<open>Wild Boar Year 12\<close>, the twelfth entry of the
  animal list followed by the position 12, whatever month is passed.
\<close>

theorem zodiac_1911:
  "get_chinese_zodiac 1911 month = Inr ''Wild Boar Year 12''"
  by (simp add: get_chinese_zodiac_def list_getitem_def zodiac_animals_def str_eval)

text \<open>
  Claim C8: the Chinese zodiac label never fails and has period 12 in the year; the
  labels of 1900 and of 1912 are both \<open>Rat Year 1\<close>.
\<close>

theorem zodiac_period_12:
  "\<not> isl (get_chinese_zodiac y month) \<and>
   get_chinese_zodiac (y + 12) month = get_chinese_zodiac y month \<and>
   get_chinese_zodiac 1900 month = Inr ''Rat Year 1'' \<and>
   get_chinese_zodiac 1912 month = Inr ''Rat Year 1''"
proof -
  have "(y + 12 - 1900) mod 12 = (y - 1900) mod 12"
    using mod_add_self2 [of "y - 1900" 12] by (simp add: algebra_simps)
  then have "get_chinese_zodiac (y + 12) month = get_chinese_zodiac y month"
    unfolding get_chinese_zodiac_def by simp
  moreover have "get_chinese_zodiac 1900 month = Inr ''Rat Year 1''"
    "get_chinese_zodiac 1912 month = Inr ''Rat Year 1''"
    by (simp_all add: get_chinese_zodiac_def list_getitem_def zodiac_animals_def str_eval)
  ultimately show ?thesis using zodiac_total [of y month] by simp
qed

text \<open>
  Claim C9: the sanitizer of the code, a regular-expression substitution followed by
  \<^verbatim>\<open>lower\<close>, returns for every string what the specification describes: each
  character outside \<^verbatim>\<open>[A-Za-z0-9_-]\<close> replaced by an underscore, then lower case.
  The result has the length of the input and consists of small letters, digits,
  underscores and hyphens only; a name with capitals, a space and an apostrophe shows
  both the replacement and the lower-casing.
\<close>

theorem sanitize_name_spec:
  "sanitize_name s = sanitize_spec s \<and>
   length (sanitize_name s) = length s \<and>
   list_all (\<lambda>c. c \<in> set safe_chars) (sanitize_name s) \<and>
   sanitize_name ''Anne-Marie O'Neil 3rd_X'' = ''anne-marie_o_neil_3rd_x''"
proof -
  have e: "sanitize_name s = sanitize_spec s" by (rule sanitize_eq)
  have l: "length (sanitize_spec s) = length s" by (simp add: sanitize_spec_def)
  have a: "list_all (\<lambda>c. c \<in> set safe_chars) (sanitize_spec s)"
    using char_facts by (simp add: sanitize_spec_def list_all_iff)
  have x: "sanitize_name ''Anne-Marie O'Neil 3rd_X'' = ''anne-marie_o_neil_3rd_x''"
    by (simp add: sanitize_name_def lower_def negated_class_def class_chars_def lower_char_def
          dict_get_def)
  from e l a x show ?thesis by simp
qed

text \<open>
  Claim C10: a string that is none of the twelve month names gets the label
  \<open>Unknown\<close> from the Western zodiac lookup; the lookup has no failing branch.
\<close>

theorem western_zodiac_unknown:
  assumes "s \<notin> set months"
  shows "get_western_zodiac s = ''Unknown''"
  using assms by (simp add: get_western_zodiac_def dict_get_def western_zodiac_def months_def)

theorem western_zodiac_unknown_witness:
  "''Smarch'' \<notin> set months \<and> get_western_zodiac ''Smarch'' = ''Unknown''"
proof -
  have no: "''Smarch'' \<notin> set months" by (simp add: months_def)
  from no western_zodiac_unknown [OF no] show ?thesis by (rule conjI)
qed

end
